theory Spec2Isabelle
  imports Main "HOL-Library.AList"
begin

section \<open>Python values of abscomp.py\<close>

text \<open>
  Exceptions are values. \<open>KeyError\<close> carries the missing key, \<open>Exit\<close> the process
  exit code of \<^verbatim>\<open>typer.Exit\<close>.
\<close>

datatype error =
    KeyError string
  | TypeError
  | HTTPError
  | FrozenInstanceError
  | Exit nat

text \<open>
  A Python \<^verbatim>\<open>dict\<close> keeps its keys in insertion order and holds each key once: it is an
  association list whose keys are distinct. \<^verbatim>\<open>d[k] = v\<close> replaces the value of a key
  that is present, in place, and appends a new key at the end.
\<close>

type_synonym ('k, 'v) dict = "('k \<times> 'v) list"

definition dict_keys :: "('k, 'v) dict \<Rightarrow> 'k list" where
  "dict_keys d = map fst d"

definition dict_values :: "('k, 'v) dict \<Rightarrow> 'v list" where
  "dict_values d = map snd d"

definition dict_in :: "'k \<Rightarrow> ('k, 'v) dict \<Rightarrow> bool" where
  "dict_in k d = (k \<in> set (dict_keys d))"

definition dict_get :: "(string, 'v) dict \<Rightarrow> string \<Rightarrow> error + 'v" where
  "dict_get d k = (case map_of d k of None \<Rightarrow> Inl (KeyError k) | Some v \<Rightarrow> Inr v)"

definition dict_set :: "('k, 'v) dict \<Rightarrow> 'k \<Rightarrow> 'v \<Rightarrow> ('k, 'v) dict" where
  "dict_set d k v = AList.update k v d"

definition wf_dict :: "('k, 'v) dict \<Rightarrow> bool" where
  "wf_dict d = distinct (dict_keys d)"

definition and_then :: "error + 'a \<Rightarrow> ('a \<Rightarrow> error + 'b) \<Rightarrow> error + 'b" where
  "and_then r f = (case r of Inl e \<Rightarrow> Inl e | Inr x \<Rightarrow> f x)"

subsection \<open>The Book dataclass (lines 40-53)\<close>

text \<open>
  \<^verbatim>\<open>@dataclass(eq=True, frozen=True) class Book\<close> with ten fields. Python does not check
  the annotations, so the field type is a parameter: the fetcher stores what the JSON
  decoder returned, and the comparison engine is read at the annotated type \<^verbatim>\<open>str\<close>.
  The fields \<^verbatim>\<open>id\<close> and \<^verbatim>\<open>size\<close> are \<open>id_book\<close> and \<open>size_book\<close> here.
\<close>

record 'a Book =
  id_book :: 'a
  title :: 'a
  author :: 'a
  series :: 'a
  year :: 'a
  asin :: 'a
  isbn :: 'a
  added :: 'a
  files :: 'a
  size_book :: 'a

type_synonym catalog = "(string, string Book) dict"

section \<open>The secondary-key reindexing of main (lines 303-311)\<close>

text \<open>
  \<^verbatim>\<open>for ab in lib.values(): if ab.asin and ab.asin not in lib_asin: lib_asin[ab.asin] = ab\<close>.
  A \<^verbatim>\<open>str\<close> is true exactly when it is not empty.
\<close>

fun reindex_loop :: "string Book list \<Rightarrow> catalog \<Rightarrow> catalog" where
  "reindex_loop [] lib_asin = lib_asin"
| "reindex_loop (ab # rest) lib_asin =
     (if asin ab \<noteq> [] \<and> \<not> dict_in (asin ab) lib_asin
      then reindex_loop rest (dict_set lib_asin (asin ab) ab)
      else reindex_loop rest lib_asin)"

definition reindex :: "catalog \<Rightarrow> catalog" where
  "reindex lib = reindex_loop (dict_values lib) []"

section \<open>compare_libs (lines 218-248)\<close>

record 'v compare_result =
  both :: "(string, 'v) dict"
  missing :: "(string, 'v) dict"

text \<open>
  The loop over the keys of \<^verbatim>\<open>lib_one\<close>; \<^verbatim>\<open>lib_one[ab_one]\<close> is a subscript and
  raises \<^verbatim>\<open>KeyError\<close> on a key that is not there.
\<close>

fun compare_loop ::
  "string list \<Rightarrow> (string, 'v) dict \<Rightarrow> (string, 'v) dict \<Rightarrow>
   (string, 'v) dict \<Rightarrow> (string, 'v) dict \<Rightarrow> error + 'v compare_result" where
  "compare_loop [] lib_one lib_two both_books missing_books =
     Inr \<lparr>both = both_books, missing = missing_books\<rparr>"
| "compare_loop (ab_one # rest) lib_one lib_two both_books missing_books =
     (if dict_in ab_one lib_two
      then and_then (dict_get lib_one ab_one)
             (\<lambda>v. compare_loop rest lib_one lib_two (dict_set both_books ab_one v) missing_books)
      else and_then (dict_get lib_one ab_one)
             (\<lambda>v. compare_loop rest lib_one lib_two both_books (dict_set missing_books ab_one v)))"

definition compare_libs ::
  "(string, 'v) dict \<Rightarrow> (string, 'v) dict \<Rightarrow> error + 'v compare_result" where
  "compare_libs lib_one lib_two = compare_loop (dict_keys lib_one) lib_one lib_two [] []"

subsection \<open>compare_libs on a store of dict objects\<close>

text \<open>
  Python passes dicts by reference, and both arguments may be one object. A store is the
  list of the live dict objects, an address is an index into it. \<^verbatim>\<open>{}\<close> allocates a new
  object at the end of the store, \<^verbatim>\<open>both_books[ab_one] = ...\<close> writes through the address.
  The \<^verbatim>\<open>for\<close> loop walks the keys the first dict had when the loop started.
\<close>

type_synonym 'v store = "(string, 'v) dict list"

definition alloc_dict :: "'v store \<Rightarrow> nat \<times> 'v store" where
  "alloc_dict h = (length h, h @ [[]])"

fun compare_loop_st ::
  "string list \<Rightarrow> nat \<Rightarrow> nat \<Rightarrow> nat \<Rightarrow> nat \<Rightarrow> 'v store \<Rightarrow> error + 'v store" where
  "compare_loop_st [] lib_one lib_two both_books missing_books h = Inr h"
| "compare_loop_st (ab_one # rest) lib_one lib_two both_books missing_books h =
     (if dict_in ab_one (h ! lib_two)
      then and_then (dict_get (h ! lib_one) ab_one)
             (\<lambda>v. compare_loop_st rest lib_one lib_two both_books missing_books
                    (h[both_books := dict_set (h ! both_books) ab_one v]))
      else and_then (dict_get (h ! lib_one) ab_one)
             (\<lambda>v. compare_loop_st rest lib_one lib_two both_books missing_books
                    (h[missing_books := dict_set (h ! missing_books) ab_one v])))"

definition compare_libs_st :: "nat \<Rightarrow> nat \<Rightarrow> 'v store \<Rightarrow> error + ((nat \<times> nat) \<times> 'v store)" where
  "compare_libs_st lib_one lib_two h =
     (case alloc_dict h of (both_books, h1) \<Rightarrow>
      case alloc_dict h1 of (missing_books, h2) \<Rightarrow>
        and_then
          (compare_loop_st (dict_keys (h2 ! lib_one)) lib_one lib_two both_books missing_books h2)
          (\<lambda>h3. Inr ((both_books, missing_books), h3)))"

section \<open>write_output (lines 182-214)\<close>

text \<open>
  A file is what was handed to the writer: the rows given to \<^verbatim>\<open>csv.writer\<close>, or the
  object given to \<^verbatim>\<open>json.dump\<close>. The file system maps a path to its file; opening with
  mode \<^verbatim>\<open>'w'\<close> replaces the file. \<^verbatim>\<open>FILEBASE\<close> holds the date of the run and is a
  parameter.
\<close>

datatype out_file =
    CsvFile "string list list"
  | JsonFile "(string, (string, string) dict) dict"

type_synonym filesystem = "string \<Rightarrow> out_file option"

text \<open>\<^verbatim>\<open>dataclasses.asdict\<close>: the fields by name, in the order of the class body.\<close>

definition asdict :: "'a Book \<Rightarrow> (string, 'a) dict" where
  "asdict b =
     [(''id'', id_book b), (''title'', title b), (''author'', author b),
      (''series'', series b), (''year'', year b), (''asin'', asin b),
      (''isbn'', isbn b), (''added'', added b), (''files'', files b),
      (''size'', size_book b)]"

definition csv_header :: "string list" where
  "csv_header = [''Title'', ''Author'', ''Series'', ''Year'', ''asin'', ''isbn'']"

definition csv_rows :: "catalog \<Rightarrow> string list list" where
  "csv_rows contents =
     csv_header # map (\<lambda>audiobook. dict_values (asdict audiobook)) (dict_values contents)"

fun content_json_loop ::
  "(string \<times> string Book) list \<Rightarrow> (string, (string, string) dict) dict \<Rightarrow>
   (string, (string, string) dict) dict" where
  "content_json_loop [] content_json = content_json"
| "content_json_loop ((k, v) # rest) content_json =
     content_json_loop rest (dict_set content_json k (asdict v))"

definition csv_path :: "string \<Rightarrow> string \<Rightarrow> string" where
  "csv_path FILEBASE out_type = FILEBASE @ out_type @ ''.csv''"

definition json_path :: "string \<Rightarrow> string \<Rightarrow> string" where
  "json_path FILEBASE out_type = FILEBASE @ out_type @ ''.json''"

definition write_output ::
  "string \<Rightarrow> catalog \<Rightarrow> string \<Rightarrow> bool \<Rightarrow> bool \<Rightarrow> filesystem \<Rightarrow> filesystem" where
  "write_output FILEBASE contents out_type flag_j flag_c fs =
     (let fs1 = (if flag_c
                 then fs(csv_path FILEBASE out_type \<mapsto> CsvFile (csv_rows contents))
                 else fs)
      in if flag_j
         then fs1(json_path FILEBASE out_type \<mapsto> JsonFile (content_json_loop contents []))
         else fs1)"

text \<open>
  The field tuple the specification gives for a record of a comparison result, and for a
  record of a full catalog.
\<close>

definition spec_fields_comparison :: "string Book \<Rightarrow> string list" where
  "spec_fields_comparison b = [title b, author b, series b, year b, asin b, isbn b]"

definition spec_fields_full :: "string Book \<Rightarrow> string list" where
  "spec_fields_full b = spec_fields_comparison b @ [added b, files b, size_book b]"

section \<open>main, from the two fetched catalogs on (lines 303-328)\<close>

record summary =
  lib_one_len :: nat
  one_asin_len :: nat
  one_missing_len :: nat
  lib_two_len :: nat
  two_asin_len :: nat
  two_missing_len :: nat
  len_both :: nat

definition main_core ::
  "string \<Rightarrow> catalog \<Rightarrow> catalog \<Rightarrow> bool \<Rightarrow> bool \<Rightarrow> filesystem \<Rightarrow>
   error + (filesystem \<times> summary)" where
  "main_core FILEBASE lib_one lib_two flag_c_csv flag_j_json fs =
     (let lib_one_asin = reindex lib_one;
          lib_two_asin = reindex lib_two
      in and_then (compare_libs lib_one_asin lib_two_asin) (\<lambda>first_compare.
         and_then (compare_libs lib_two_asin lib_one_asin) (\<lambda>second_compare.
           let fs1 = write_output FILEBASE (both first_compare) ''both'' flag_j_json flag_c_csv fs;
               fs2 = write_output FILEBASE lib_one ''one'' flag_j_json flag_c_csv fs1;
               fs3 = write_output FILEBASE lib_two ''two_full'' flag_j_json flag_c_csv fs2
           in Inr (fs3,
                \<lparr>lib_one_len = length lib_one,
                 one_asin_len = length lib_one_asin,
                 one_missing_len = length (missing second_compare),
                 lib_two_len = length lib_two,
                 two_asin_len = length lib_two_asin,
                 two_missing_len = length (missing first_compare),
                 len_both = length (both first_compare)\<rparr>))))"

section \<open>get_library, from the response on (lines 155-178)\<close>

text \<open>
  What \<^verbatim>\<open>response.json()\<close> returns: \<^verbatim>\<open>None\<close>, a bool, an int, a str, a list or a
  dict with str keys (numbers with a fraction are left out). The keys of a \<open>JObj\<close> are
  distinct, as those of a dict are.
\<close>

datatype json =
    JNull
  | JBool bool
  | JInt int
  | JStr string
  | JArr "json list"
  | JObj "(string \<times> json) list"

text \<open>\<^verbatim>\<open>v[k]\<close> for a str \<open>k\<close>: only a dict takes a str subscript.\<close>

definition py_getitem :: "json \<Rightarrow> string \<Rightarrow> error + json" where
  "py_getitem v k =
     (case v of
        JObj kvs \<Rightarrow> (case map_of kvs k of None \<Rightarrow> Inl (KeyError k) | Some x \<Rightarrow> Inr x)
      | _ \<Rightarrow> Inl TypeError)"

text \<open>
  \<^verbatim>\<open>for result in v\<close>: a list gives its elements, a dict its keys, a str its characters;
  nothing else is iterable.
\<close>

definition py_iter :: "json \<Rightarrow> error + json list" where
  "py_iter v =
     (case v of
        JArr xs \<Rightarrow> Inr xs
      | JObj kvs \<Rightarrow> Inr (map (\<lambda>kv. JStr (fst kv)) kvs)
      | JStr s \<Rightarrow> Inr (map (\<lambda>c. JStr [c]) s)
      | _ \<Rightarrow> Inl TypeError)"

text \<open>
  Keys of \<^verbatim>\<open>title_library\<close>: a list or a dict is not hashable, and \<^verbatim>\<open>True == 1\<close>,
  \<^verbatim>\<open>False == 0\<close> as keys. A store under a key that is present keeps the old key object.
\<close>

definition hashable :: "json \<Rightarrow> bool" where
  "hashable v = (case v of JArr _ \<Rightarrow> False | JObj _ \<Rightarrow> False | _ \<Rightarrow> True)"

definition key_norm :: "json \<Rightarrow> json" where
  "key_norm v = (case v of JBool b \<Rightarrow> JInt (if b then 1 else 0) | _ \<Rightarrow> v)"

fun py_update :: "json \<Rightarrow> 'v \<Rightarrow> (json, 'v) dict \<Rightarrow> (json, 'v) dict" where
  "py_update k v [] = [(k, v)]"
| "py_update k v (p # ps) =
     (if key_norm (fst p) = key_norm k then (fst p, v) # ps else p # py_update k v ps)"

definition py_setitem :: "(json, 'v) dict \<Rightarrow> json \<Rightarrow> 'v \<Rightarrow> error + (json, 'v) dict" where
  "py_setitem d k v = (if hashable k then Inr (py_update k v d) else Inl TypeError)"

definition metadata_field :: "json \<Rightarrow> string \<Rightarrow> error + json" where
  "metadata_field result f =
     and_then (py_getitem result ''media'') (\<lambda>media.
     and_then (py_getitem media ''metadata'') (\<lambda>metadata.
       py_getitem metadata f))"

definition media_field :: "json \<Rightarrow> string \<Rightarrow> error + json" where
  "media_field result f =
     and_then (py_getitem result ''media'') (\<lambda>media. py_getitem media f)"

text \<open>The call \<^verbatim>\<open>Book(id=..., title=..., ...)\<close>: the arguments are evaluated in order.\<close>

definition mk_Book :: "json \<Rightarrow> error + json Book" where
  "mk_Book result =
     and_then (py_getitem result ''id'') (\<lambda>a_id.
     and_then (metadata_field result ''title'') (\<lambda>a_title.
     and_then (metadata_field result ''authorName'') (\<lambda>a_author.
     and_then (metadata_field result ''seriesName'') (\<lambda>a_series.
     and_then (metadata_field result ''publishedYear'') (\<lambda>a_year.
     and_then (metadata_field result ''asin'') (\<lambda>a_asin.
     and_then (metadata_field result ''isbn'') (\<lambda>a_isbn.
     and_then (py_getitem result ''addedAt'') (\<lambda>a_added.
     and_then (media_field result ''numAudioFiles'') (\<lambda>a_files.
     and_then (media_field result ''size'') (\<lambda>a_size.
       Inr \<lparr>id_book = a_id, title = a_title, author = a_author, series = a_series,
            year = a_year, asin = a_asin, isbn = a_isbn, added = a_added,
            files = a_files, size_book = a_size\<rparr>))))))))))"

text \<open>
  \<^verbatim>\<open>title_library[result['id']] = Book(...)\<close>: the right-hand side first, then the
  subscript, then the store. No \<^verbatim>\<open>try\<close> stands inside the loop.
\<close>

fun get_library_loop :: "json list \<Rightarrow> (json, json Book) dict \<Rightarrow> error + (json, json Book) dict" where
  "get_library_loop [] title_library = Inr title_library"
| "get_library_loop (result # rest) title_library =
     and_then (mk_Book result) (\<lambda>book.
     and_then (py_getitem result ''id'') (\<lambda>k.
     and_then (py_setitem title_library k book) (\<lambda>title_library'.
       get_library_loop rest title_library')))"

text \<open>
  The response: whether \<^verbatim>\<open>raise_for_status\<close> raises, and the decoded body, \<open>None\<close> when
  \<^verbatim>\<open>response.json()\<close> raises \<^verbatim>\<open>JSONDecodeError\<close>. That exception alone is caught, and
  turned into \<^verbatim>\<open>typer.Exit(code=1)\<close>.
\<close>

record response =
  status_error :: bool
  decoded :: "json option"

definition get_library :: "response \<Rightarrow> error + (json, json Book) dict" where
  "get_library resp =
     (if status_error resp then Inl HTTPError
      else case decoded resp of
             None \<Rightarrow> Inl (Exit 1)
           | Some j \<Rightarrow>
               and_then (py_getitem j ''results'') (\<lambda>results.
               and_then (py_iter results) (\<lambda>rs.
                 get_library_loop rs [])))"

text \<open>A field is present in a raw entry when every key on its path is there.\<close>

fun has_path :: "json \<Rightarrow> string list \<Rightarrow> bool" where
  "has_path v [] = True"
| "has_path v (k # ks) =
     (case v of
        JObj kvs \<Rightarrow> (case map_of kvs k of None \<Rightarrow> False | Some x \<Rightarrow> has_path x ks)
      | _ \<Rightarrow> False)"

definition required_paths :: "string list list" where
  "required_paths =
     [[''id''], [''media'', ''metadata'', ''title''], [''media'', ''metadata'', ''authorName'']]"

definition lacks_required :: "json \<Rightarrow> bool" where
  "lacks_required r = list_ex (\<lambda>p. \<not> has_path r p) required_paths"

definition record_ok :: "json \<Rightarrow> bool" where
  "record_ok r =
     (case mk_Book r of Inl e \<Rightarrow> False | Inr b \<Rightarrow> hashable (id_book b))"

text \<open>The exceptions a failed subscript or an unhashable key raises.\<close>

definition lookup_error :: "error \<Rightarrow> bool" where
  "lookup_error e = (case e of KeyError k \<Rightarrow> True | TypeError \<Rightarrow> True | _ \<Rightarrow> False)"

section \<open>What the dataclass decorator generates (line 40)\<close>

text \<open>
  Line 40 is \<^verbatim>\<open>@dataclass(eq=True, frozen=True)\<close>. The methods \<^verbatim>\<open>__eq__\<close>, \<^verbatim>\<open>__hash__\<close> and
  \<^verbatim>\<open>__setattr__\<close> of Book are written by that decorator, from its arguments and from the
  fields of lines 44-53; their code is in the standard library, not in src/. Books are
  objects in a store, an address is an index into it, and the fields are read at the
  annotated type \<^verbatim>\<open>str\<close>, where \<^verbatim>\<open>==\<close> is equality of strings.
\<close>

record dataclass_args =
  eq_arg :: bool
  frozen_arg :: bool

definition Book_args :: dataclass_args where
  "Book_args = \<lparr>eq_arg = True, frozen_arg = True\<rparr>"

type_synonym book_store = "string Book list"

definition astuple :: "'a Book \<Rightarrow> 'a list" where
  "astuple b =
     [id_book b, title b, author b, series b, year b, asin b, isbn b, added b, files b,
      size_book b]"

text \<open>
  An assignment \<^verbatim>\<open>obj.name = v\<close> on a class that is not frozen: a field takes the value, any
  other name goes to the instance and leaves the ten fields as they are.
\<close>

definition set_field :: "string \<Rightarrow> 'a \<Rightarrow> 'a Book \<Rightarrow> 'a Book" where
  "set_field name v b =
     (if name = ''id'' then b\<lparr>id_book := v\<rparr>
      else if name = ''title'' then b\<lparr>title := v\<rparr>
      else if name = ''author'' then b\<lparr>author := v\<rparr>
      else if name = ''series'' then b\<lparr>series := v\<rparr>
      else if name = ''year'' then b\<lparr>year := v\<rparr>
      else if name = ''asin'' then b\<lparr>asin := v\<rparr>
      else if name = ''isbn'' then b\<lparr>isbn := v\<rparr>
      else if name = ''added'' then b\<lparr>added := v\<rparr>
      else if name = ''files'' then b\<lparr>files := v\<rparr>
      else if name = ''size'' then b\<lparr>size_book := v\<rparr>
      else b)"

text \<open>
  Modelled from the spec: the generated \<^verbatim>\<open>__setattr__\<close>, which is not in src/. The
  specification gives a Record as immutable after construction; the decorator makes it so
  when \<^verbatim>\<open>frozen\<close> is true, by raising \<^verbatim>\<open>FrozenInstanceError\<close> on every assignment, and
  otherwise the assignment stores the value in the object.
\<close>

definition generated_setattr ::
  "dataclass_args \<Rightarrow> book_store \<Rightarrow> nat \<Rightarrow> string \<Rightarrow> string \<Rightarrow> error + book_store" where
  "generated_setattr args h a name v =
     (if frozen_arg args then Inl FrozenInstanceError
      else Inr (h[a := set_field name v (h ! a)]))"

text \<open>
  Modelled from the spec: the generated \<^verbatim>\<open>__eq__\<close>, which is not in src/. The specification
  gives equality as structural over all fields; the decorator makes it so when \<^verbatim>\<open>eq\<close> is
  true, by comparing the tuples of the fields in class order, and otherwise two objects
  are equal when they are one object.
\<close>

definition generated_eq :: "dataclass_args \<Rightarrow> book_store \<Rightarrow> nat \<Rightarrow> nat \<Rightarrow> bool" where
  "generated_eq args h a b =
     (if eq_arg args then astuple (h ! a) = astuple (h ! b) else a = b)"

text \<open>
  Modelled from the spec: the generated \<^verbatim>\<open>__hash__\<close>, which is not in src/. The
  specification gives hashing as structural over all fields; the decorator makes it the
  hash of the tuple of the fields when \<^verbatim>\<open>eq\<close> and \<^verbatim>\<open>frozen\<close> are true, takes the hash away
  (\<^verbatim>\<open>TypeError\<close>) when only \<^verbatim>\<open>eq\<close> is, and otherwise leaves the hash of the object's
  identity. The hash of a tuple and the hash of an identity are parameters.
\<close>

definition generated_hash ::
  "dataclass_args \<Rightarrow> (string list \<Rightarrow> int) \<Rightarrow> (nat \<Rightarrow> int) \<Rightarrow> book_store \<Rightarrow> nat \<Rightarrow> error + int" where
  "generated_hash args tuple_hash id_hash h a =
     (if eq_arg args
      then (if frozen_arg args then Inr (tuple_hash (astuple (h ! a))) else Inl TypeError)
      else Inr (id_hash a))"

text \<open>The three methods of Book: the generated ones at the arguments of line 40.\<close>

definition Book_setattr :: "book_store \<Rightarrow> nat \<Rightarrow> string \<Rightarrow> string \<Rightarrow> error + book_store" where
  "Book_setattr = generated_setattr Book_args"

definition Book_eq :: "book_store \<Rightarrow> nat \<Rightarrow> nat \<Rightarrow> bool" where
  "Book_eq = generated_eq Book_args"

definition Book_hash ::
  "(string list \<Rightarrow> int) \<Rightarrow> (nat \<Rightarrow> int) \<Rightarrow> book_store \<Rightarrow> nat \<Rightarrow> error + int" where
  "Book_hash = generated_hash Book_args"

section \<open>Sample data\<close>

definition sample_book :: "string \<Rightarrow> string \<Rightarrow> string \<Rightarrow> string Book" where
  "sample_book i t a =
     \<lparr>id_book = i, title = t, author = ''Ann Author'', series = ''Saga'', year = ''2020'',
      asin = a, isbn = ''978'', added = ''1700000000000'', files = ''12'', size_book = ''34567''\<rparr>"

definition sample_one :: catalog where
  "sample_one =
     [(''id1'', sample_book ''id1'' ''First'' ''X''),
      (''id2'', sample_book ''id2'' ''Second'' []),
      (''id3'', sample_book ''id3'' ''Third'' ''X''),
      (''id4'', sample_book ''id4'' ''Fourth'' ''Y'')]"

definition sample_two :: catalog where
  "sample_two =
     [(''id7'', sample_book ''id7'' ''First again'' ''X''),
      (''id8'', sample_book ''id8'' ''Other'' ''Z'')]"

definition sample_metadata :: "(string \<times> json) list" where
  "sample_metadata =
     [(''title'', JStr ''First''), (''authorName'', JStr ''Ann Author''),
      (''seriesName'', JStr ''Saga''), (''publishedYear'', JStr ''2020''),
      (''asin'', JStr ''X''), (''isbn'', JNull)]"

definition sample_entry :: "string \<Rightarrow> (string \<times> json) list \<Rightarrow> json" where
  "sample_entry i metadata =
     JObj [(''id'', JStr i),
           (''media'', JObj [(''metadata'', JObj metadata),
                             (''numAudioFiles'', JInt 12), (''size'', JInt 34567)]),
           (''addedAt'', JInt 1700000000000)]"

definition sample_response :: "json list \<Rightarrow> response" where
  "sample_response rs =
     \<lparr>status_error = False, decoded = Some (JObj [(''results'', JArr rs)])\<rparr>"

definition sample_results :: "json list" where
  "sample_results =
     [sample_entry ''id1'' sample_metadata,
      sample_entry ''id2'' (tl sample_metadata),
      sample_entry ''id3'' sample_metadata]"

definition sample_both :: catalog where
  "sample_both = [(''X'', sample_book ''id1'' ''First'' ''X'')]"

definition sample_filebase :: string where
  "sample_filebase = ''abscomp_books_240204_''"

definition sample_books :: book_store where
  "sample_books =
     [sample_book ''id1'' ''First'' ''X'',
      \<lparr>id_book = ''id1'', title = ''First'', author = ''Ann Author'', series = ''Saga'',
       year = ''2020'', asin = ''X'', isbn = ''978'', added = ''1700000000000'', files = ''12'',
       size_book = ''34567''\<rparr>,
      sample_book ''id3'' ''Third'' ''X'']"

definition sample_store :: "string Book store" where
  "sample_store = [reindex sample_one, reindex sample_two]"

section \<open>Properties\<close>

lemma dict_get_present:
  "k \<in> set (dict_keys d) \<Longrightarrow> \<exists>v. dict_get d k = Inr v \<and> map_of d k = Some v"
  by (cases "map_of d k") (auto simp: dict_get_def dict_keys_def map_of_eq_None_iff)

subsection \<open>Dictionary operations\<close>

lemma update_absent: "k \<notin> fst ` set al \<Longrightarrow> AList.update k v al = al @ [(k, v)]"
  by (induction al) auto

lemma dict_set_absent: "\<not> dict_in k d \<Longrightarrow> dict_set d k v = d @ [(k, v)]"
  by (simp add: dict_set_def dict_in_def dict_keys_def update_absent)

lemma set_dict_set: "set (dict_set d k v) \<subseteq> insert (k, v) (set d)"
  unfolding dict_set_def by (induction d) auto

lemma keys_dict_set: "fst ` set (dict_set d k v) = insert k (fst ` set d)"
  by (simp add: dict_set_def dom_update)

lemma dict_get_entry:
  "distinct (map fst d) \<Longrightarrow> (k, v) \<in> set d \<Longrightarrow> dict_get d k = Inr v"
  by (simp add: dict_get_def)

subsection \<open>The comparison loop\<close>

lemma compare_loop_filter:
  "distinct (map fst xs) \<Longrightarrow> set xs \<subseteq> set lib_one \<Longrightarrow> distinct (map fst lib_one) \<Longrightarrow>
   fst ` set xs \<inter> fst ` set b = {} \<Longrightarrow> fst ` set xs \<inter> fst ` set m = {} \<Longrightarrow>
   compare_loop (map fst xs) lib_one lib_two b m =
     Inr \<lparr>both = b @ filter (\<lambda>p. dict_in (fst p) lib_two) xs,
          missing = m @ filter (\<lambda>p. \<not> dict_in (fst p) lib_two) xs\<rparr>"
proof (induction xs arbitrary: b m)
  case Nil
  then show ?case by simp
next
  case (Cons x xs)
  obtain k v where x: "x = (k, v)" by (cases x)
  have get: "dict_get lib_one k = Inr v"
    using Cons.prems x by (intro dict_get_entry) auto
  have kb: "\<not> dict_in k b" and km: "\<not> dict_in k m"
    using Cons.prems x by (auto simp: dict_in_def dict_keys_def)
  have kxs: "k \<notin> fst ` set xs" using Cons.prems x by auto
  show ?case
  proof (cases "dict_in k lib_two")
    case True
    have "compare_loop (map fst xs) lib_one lib_two (b @ [(k, v)]) m =
       Inr \<lparr>both = (b @ [(k, v)]) @ filter (\<lambda>p. dict_in (fst p) lib_two) xs,
          missing = m @ filter (\<lambda>p. \<not> dict_in (fst p) lib_two) xs\<rparr>"
      using Cons.prems kxs x by (intro Cons.IH) auto
    then show ?thesis
      using True get kb x by (simp add: and_then_def dict_set_absent)
  next
    case False
    have "compare_loop (map fst xs) lib_one lib_two b (m @ [(k, v)]) =
       Inr \<lparr>both = b @ filter (\<lambda>p. dict_in (fst p) lib_two) xs,
          missing = (m @ [(k, v)]) @ filter (\<lambda>p. \<not> dict_in (fst p) lib_two) xs\<rparr>"
      using Cons.prems kxs x by (intro Cons.IH) auto
    then show ?thesis
      using False get km x by (simp add: and_then_def dict_set_absent)
  qed
qed

lemma compare_libs_filter:
  "wf_dict left \<Longrightarrow> compare_libs left right =
     Inr \<lparr>both = filter (\<lambda>p. dict_in (fst p) right) left,
          missing = filter (\<lambda>p. \<not> dict_in (fst p) right) left\<rparr>"
  using compare_loop_filter [of left left "[]" "[]" right]
  by (simp add: compare_libs_def wf_dict_def dict_keys_def)

lemma compare_loop_total:
  "set ks \<subseteq> fst ` set lib_one \<Longrightarrow>
   \<exists>r. compare_loop ks lib_one lib_two b m = Inr r
     \<and> fst ` set (both r) = fst ` set b \<union> {k \<in> set ks. dict_in k lib_two}
     \<and> fst ` set (missing r) = fst ` set m \<union> {k \<in> set ks. \<not> dict_in k lib_two}
     \<and> set (both r) \<subseteq> set b \<union> set lib_one
     \<and> set (missing r) \<subseteq> set m \<union> set lib_one"
proof (induction ks arbitrary: b m)
  case Nil
  then show ?case by simp
next
  case (Cons k ks)
  then obtain v where v: "dict_get lib_one k = Inr v" "map_of lib_one k = Some v"
    using dict_get_present [of k lib_one] by (auto simp: dict_keys_def)
  then have mem: "(k, v) \<in> set lib_one" by (simp add: map_of_SomeD)
  show ?case
  proof (cases "dict_in k lib_two")
    case True
    from Cons.IH [of "dict_set b k v" m] Cons.prems
    obtain r where r: "compare_loop ks lib_one lib_two (dict_set b k v) m = Inr r"
      "fst ` set (both r) = fst ` set (dict_set b k v) \<union> {k \<in> set ks. dict_in k lib_two}"
      "fst ` set (missing r) = fst ` set m \<union> {k \<in> set ks. \<not> dict_in k lib_two}"
      "set (both r) \<subseteq> set (dict_set b k v) \<union> set lib_one"
      "set (missing r) \<subseteq> set m \<union> set lib_one"
      by auto
    show ?thesis
      using True v r mem set_dict_set [of b k v]
      by (auto simp: and_then_def keys_dict_set)
  next
    case False
    from Cons.IH [of b "dict_set m k v"] Cons.prems
    obtain r where r: "compare_loop ks lib_one lib_two b (dict_set m k v) = Inr r"
      "fst ` set (both r) = fst ` set b \<union> {k \<in> set ks. dict_in k lib_two}"
      "fst ` set (missing r) = fst ` set (dict_set m k v) \<union> {k \<in> set ks. \<not> dict_in k lib_two}"
      "set (both r) \<subseteq> set b \<union> set lib_one"
      "set (missing r) \<subseteq> set (dict_set m k v) \<union> set lib_one"
      by auto
    show ?thesis
      using False v r mem set_dict_set [of m k v]
      by (auto simp: and_then_def keys_dict_set)
  qed
qed


subsection \<open>C1: compare_libs partitions its first argument\<close>

text \<open>
  Claim C1. For a dict \<open>left\<close> (distinct keys) and any \<open>right\<close>, \<^verbatim>\<open>compare_libs\<close> returns,
  and its two outputs are \<open>left\<close> split in order by whether the key is a key of
  \<open>right\<close>: together they hold exactly the entries of \<open>left\<close>, no key is in both outputs or
  twice in one, a key is in \<open>both\<close> exactly when it is a key of \<open>left\<close> and of \<open>right\<close> and
  in \<open>missing\<close> exactly when it is a key of \<open>left\<close> only, every value is the one \<open>left\<close>
  holds under that key, and the result depends on \<open>right\<close> through its key set alone. Keys
  are compared as strings are equal.
\<close>

theorem compare_libs_partition:
  assumes "wf_dict left"
  shows "\<exists>r. compare_libs left right = Inr r
    \<and> both r = filter (\<lambda>p. dict_in (fst p) right) left
    \<and> missing r = filter (\<lambda>p. \<not> dict_in (fst p) right) left
    \<and> set (both r) \<union> set (missing r) = set left
    \<and> set (dict_keys (both r)) \<inter> set (dict_keys (missing r)) = {}
    \<and> length (both r) + length (missing r) = length left
    \<and> wf_dict (both r) \<and> wf_dict (missing r)
    \<and> (\<forall>k. dict_in k (both r) = (dict_in k left \<and> dict_in k right))
    \<and> (\<forall>k. dict_in k (missing r) = (dict_in k left \<and> \<not> dict_in k right))
    \<and> (\<forall>k v. (k, v) \<in> set (both r) \<or> (k, v) \<in> set (missing r) \<longrightarrow> map_of left k = Some v)
    \<and> (\<forall>right'. set (dict_keys right') = set (dict_keys right) \<longrightarrow>
           compare_libs left right' = compare_libs left right)"
proof -
  define r where "r = \<lparr>both = filter (\<lambda>p. dict_in (fst p) right) left,
          missing = filter (\<lambda>p. \<not> dict_in (fst p) right) left\<rparr>"
  have b: "both r = filter (\<lambda>p. dict_in (fst p) right) left"
    and m: "missing r = filter (\<lambda>p. \<not> dict_in (fst p) right) left"
    by (simp_all add: r_def)
  have run: "compare_libs left right = Inr r"
    using assms by (simp add: r_def compare_libs_filter)
  have un: "set (both r) \<union> set (missing r) = set left"
    unfolding b m by auto
  have disj: "set (dict_keys (both r)) \<inter> set (dict_keys (missing r)) = {}"
    unfolding b m by (force simp: dict_keys_def dict_in_def)
  have len: "length (both r) + length (missing r) = length left"
    unfolding b m by (simp add: sum_length_filter_compl)
  have wf: "wf_dict (both r)" "wf_dict (missing r)"
    unfolding b m using assms by (simp_all add: wf_dict_def dict_keys_def distinct_map_filter)
  have inb: "\<forall>k. dict_in k (both r) = (dict_in k left \<and> dict_in k right)"
    unfolding b by (force simp: dict_in_def dict_keys_def)
  have inm: "\<forall>k. dict_in k (missing r) = (dict_in k left \<and> \<not> dict_in k right)"
    unfolding m by (force simp: dict_in_def dict_keys_def)
  have vals: "\<forall>k v. (k, v) \<in> set (both r) \<or> (k, v) \<in> set (missing r) \<longrightarrow> map_of left k = Some v"
    unfolding b m using assms by (auto simp: wf_dict_def dict_keys_def)
  have keyonly: "\<forall>right'. set (dict_keys right') = set (dict_keys right) \<longrightarrow>
           compare_libs left right' = compare_libs left right"
    using assms by (simp add: compare_libs_filter dict_in_def)
  from run b m un disj len wf inb inm vals keyonly show ?thesis
    by blast
qed


subsection \<open>The sample catalogs\<close>

lemmas sample_defs = sample_one_def sample_two_def sample_book_def
lemmas dict_defs = dict_keys_def dict_values_def dict_in_def dict_set_def wf_dict_def

lemma reindex_sample_one:
  "reindex sample_one =
     [(''X'', sample_book ''id1'' ''First'' ''X''), (''Y'', sample_book ''id4'' ''Fourth'' ''Y'')]"
  by (simp add: reindex_def sample_defs dict_defs)

lemma reindex_sample_two:
  "reindex sample_two =
     [(''X'', sample_book ''id7'' ''First again'' ''X''), (''Z'', sample_book ''id8'' ''Other'' ''Z'')]"
  by (simp add: reindex_def sample_defs dict_defs)

text \<open>
  C1 on the sample: \<open>X\<close> is in both libraries, \<open>Y\<close> in the first only. Keys that differ
  from \<open>X\<close> in case or by a trailing blank are different keys.
\<close>

theorem compare_libs_partition_witness:
  "wf_dict (reindex sample_one)
   \<and> compare_libs (reindex sample_one) (reindex sample_two) =
       Inr \<lparr>both = [(''X'', sample_book ''id1'' ''First'' ''X'')],
            missing = [(''Y'', sample_book ''id4'' ''Fourth'' ''Y'')]\<rparr>
   \<and> wf_dict [(''x'', sample_book ''id1'' ''First'' ''x''), (''X '', sample_book ''id3'' ''Third'' ''X '')]
   \<and> compare_libs
         [(''x'', sample_book ''id1'' ''First'' ''x''), (''X '', sample_book ''id3'' ''Third'' ''X '')]
         (reindex sample_two) =
       Inr \<lparr>both = [],
            missing = [(''x'', sample_book ''id1'' ''First'' ''x''),
                       (''X '', sample_book ''id3'' ''Third'' ''X '')]\<rparr>"
proof -
  let ?l = "[(''x'', sample_book ''id1'' ''First'' ''x''), (''X '', sample_book ''id3'' ''Third'' ''X '')]"
  have wf: "wf_dict (reindex sample_one)"
    by (simp add: reindex_sample_one dict_defs)
  from compare_libs_partition [OF wf, of "reindex sample_two"]
  obtain r where "compare_libs (reindex sample_one) (reindex sample_two) = Inr r"
    and "both r = filter (\<lambda>p. dict_in (fst p) (reindex sample_two)) (reindex sample_one)"
    and "missing r = filter (\<lambda>p. \<not> dict_in (fst p) (reindex sample_two)) (reindex sample_one)"
    by blast
  then have c1: "compare_libs (reindex sample_one) (reindex sample_two) =
       Inr \<lparr>both = [(''X'', sample_book ''id1'' ''First'' ''X'')],
            missing = [(''Y'', sample_book ''id4'' ''Fourth'' ''Y'')]\<rparr>"
    by (cases r) (simp add: reindex_sample_one reindex_sample_two dict_defs)
  have wf2: "wf_dict ?l"
    by (simp add: dict_defs)
  from compare_libs_partition [OF wf2, of "reindex sample_two"]
  obtain r2 where "compare_libs ?l (reindex sample_two) = Inr r2"
    and "both r2 = filter (\<lambda>p. dict_in (fst p) (reindex sample_two)) ?l"
    and "missing r2 = filter (\<lambda>p. \<not> dict_in (fst p) (reindex sample_two)) ?l"
    by blast
  then have c2: "compare_libs ?l (reindex sample_two) = Inr \<lparr>both = [], missing = ?l\<rparr>"
    by (cases r2) (simp add: reindex_sample_two dict_defs)
  from wf c1 wf2 c2 show ?thesis by blast
qed

subsection \<open>C4: the keys in both, either way round\<close>

lemma compare_libs_total:
  "\<exists>r. compare_libs left right = Inr r
     \<and> set (dict_keys (both r)) = {k \<in> set (dict_keys left). dict_in k right}
     \<and> set (dict_keys (missing r)) = {k \<in> set (dict_keys left). \<not> dict_in k right}
     \<and> set (both r) \<subseteq> set left \<and> set (missing r) \<subseteq> set left"
  using compare_loop_total [of "dict_keys left" left right "[]" "[]"]
  by (auto simp: compare_libs_def dict_keys_def)

text \<open>
  Claim C4. For any two catalogs both calls return, the \<open>both\<close> output of
  \<^verbatim>\<open>compare_libs(left, right)\<close> and that of \<^verbatim>\<open>compare_libs(right, left)\<close> have the same
  set of keys, and each holds entries of its own first argument.
\<close>

theorem compare_libs_both_symmetric:
  "\<exists>a b. compare_libs left right = Inr a \<and> compare_libs right left = Inr b
     \<and> set (dict_keys (both a)) = set (dict_keys (both b))
     \<and> set (both a) \<subseteq> set left \<and> set (both b) \<subseteq> set right"
proof -
  obtain a where a: "compare_libs left right = Inr a"
    "set (dict_keys (both a)) = {k \<in> set (dict_keys left). dict_in k right}"
    "set (both a) \<subseteq> set left"
    using compare_libs_total [of left right] by blast
  obtain b where b: "compare_libs right left = Inr b"
    "set (dict_keys (both b)) = {k \<in> set (dict_keys right). dict_in k left}"
    "set (both b) \<subseteq> set right"
    using compare_libs_total [of right left] by blast
  have "set (dict_keys (both a)) = set (dict_keys (both b))"
    unfolding a b by (auto simp: dict_in_def)
  with a b show ?thesis by blast
qed

subsection \<open>The reindexing loop\<close>

lemma reindex_loop_snoc:
  "reindex_loop (vs @ [ab]) acc =
     (if asin ab \<noteq> [] \<and> \<not> dict_in (asin ab) (reindex_loop vs acc)
      then reindex_loop vs acc @ [(asin ab, ab)] else reindex_loop vs acc)"
  by (induction vs arbitrary: acc) (simp_all add: dict_set_absent)

lemma reindex_loop_map_of:
  "map_of (reindex_loop vs acc) a =
     (case map_of acc a of
        Some b \<Rightarrow> Some b
      | None \<Rightarrow> if a = [] then None else find (\<lambda>ab. asin ab = a) vs)"
proof (induction vs arbitrary: acc)
  case Nil
  then show ?case by (simp split: option.splits)
next
  case (Cons ab vs)
  show ?case
  proof (cases "asin ab \<noteq> [] \<and> \<not> dict_in (asin ab) acc")
    case True
    then have none: "map_of acc (asin ab) = None"
      by (simp add: dict_in_def dict_keys_def map_of_eq_None_iff)
    show ?thesis
      using True none Cons.IH [of "dict_set acc (asin ab) ab"]
      by (auto simp: dict_set_def update_conv' split: option.splits)
  next
    case False
    then have "asin ab = [] \<or> (\<exists>b. map_of acc (asin ab) = Some b)"
      by (cases "map_of acc (asin ab)") (auto simp: dict_in_def dict_keys_def map_of_eq_None_iff)
    then show ?thesis
      using False Cons.IH [of acc] by (auto split: option.splits)
  qed
qed

lemma reindex_loop_entries:
  "set (reindex_loop vs acc) \<subseteq> set acc \<union> (\<lambda>ab. (asin ab, ab)) ` {ab \<in> set vs. asin ab \<noteq> []}"
proof (induction vs arbitrary: acc)
  case Nil
  then show ?case by simp
next
  case (Cons ab vs)
  show ?case
    using Cons.IH [of acc] Cons.IH [of "dict_set acc (asin ab) ab"] set_dict_set [of acc "asin ab" ab]
    by (auto split: if_splits)
qed

lemma reindex_loop_wf:
  "distinct (map fst acc) \<Longrightarrow> distinct (map fst (reindex_loop vs acc))"
  by (induction vs arbitrary: acc) (simp_all add: dict_set_def distinct_update)

lemma reindex_loop_length:
  "length (reindex_loop vs acc) \<le> length acc + length vs"
proof (induction vs arbitrary: acc)
  case Nil
  then show ?case by simp
next
  case (Cons ab vs)
  show ?case
    using Cons.IH [of acc] Cons.IH [of "acc @ [(asin ab, ab)]"]
    by (auto simp: dict_set_absent)
qed

lemma reindex_entries:
  "(k, ab) \<in> set (reindex lib) \<Longrightarrow> asin ab = k \<and> k \<noteq> [] \<and> ab \<in> set (dict_values lib)"
  using reindex_loop_entries [of "dict_values lib" "[]"] by (auto simp: reindex_def)

subsection \<open>C2: empty asins are dropped, the first record of an asin wins\<close>

text \<open>
  Claim C2. Reindexing a catalog in its order: no record with an empty asin is in the
  result and the empty string is no key of it; under every other asin the result holds
  the first record of the catalog with that asin, and each asin once; the result is a
  plain dict, there is no error outcome. A record appended to the catalog is appended
  under its asin when that asin is not empty and not yet a key, and otherwise leaves the
  result as it was: a later record of a stored asin changes nothing.
\<close>

theorem reindex_first_seen_wins:
  "(\<forall>ab. asin ab = [] \<longrightarrow> ab \<notin> set (dict_values (reindex lib)))
   \<and> \<not> dict_in [] (reindex lib)
   \<and> (\<forall>a. map_of (reindex lib) a =
          (if a = [] then None else find (\<lambda>ab. asin ab = a) (dict_values lib)))
   \<and> wf_dict (reindex lib)
   \<and> reindex [] = []
   \<and> (\<forall>k ab. reindex (lib @ [(k, ab)]) =
          (if asin ab \<noteq> [] \<and> \<not> dict_in (asin ab) (reindex lib)
           then reindex lib @ [(asin ab, ab)] else reindex lib))"
proof -
  have empty: "\<forall>ab. asin ab = [] \<longrightarrow> ab \<notin> set (dict_values (reindex lib))"
  proof (intro allI impI notI)
    fix ab :: "string Book"
    assume e: "asin ab = []" and "ab \<in> set (dict_values (reindex lib))"
    then obtain k where "(k, ab) \<in> set (reindex lib)"
      by (auto simp: dict_values_def)
    from reindex_entries [OF this] e show False by auto
  qed
  have nokey: "\<not> dict_in [] (reindex lib)"
  proof
    assume "dict_in [] (reindex lib)"
    then obtain ab where "([], ab) \<in> set (reindex lib)"
      by (auto simp: dict_in_def dict_keys_def)
    from reindex_entries [OF this] show False by auto
  qed
  have first: "\<forall>a. map_of (reindex lib) a =
          (if a = [] then None else find (\<lambda>ab. asin ab = a) (dict_values lib))"
    by (simp add: reindex_def reindex_loop_map_of)
  have wf: "wf_dict (reindex lib)"
    using reindex_loop_wf [of "[]" "dict_values lib"] by (simp add: reindex_def wf_dict_def dict_keys_def)
  have nil: "reindex [] = []"
    by (simp add: reindex_def dict_values_def)
  have snoc: "\<forall>k ab. reindex (lib @ [(k, ab)]) =
          (if asin ab \<noteq> [] \<and> \<not> dict_in (asin ab) (reindex lib)
           then reindex lib @ [(asin ab, ab)] else reindex lib)"
    by (simp add: reindex_def dict_values_def reindex_loop_snoc)
  from empty nokey first wf nil snoc show ?thesis by blast
qed

text \<open>
  C2 on the sample: the record without asin and the second record of asin \<open>X\<close> are
  dropped, \<open>X\<close> holds the first one, and one more record of asin \<open>Y\<close> changes nothing.
\<close>

theorem reindex_first_seen_wins_witness:
  "sample_book ''id2'' ''Second'' [] \<notin> set (dict_values (reindex sample_one))
   \<and> map_of (reindex sample_one) ''X'' = Some (sample_book ''id1'' ''First'' ''X'')
   \<and> sample_book ''id3'' ''Third'' ''X'' \<notin> set (dict_values (reindex sample_one))
   \<and> reindex (sample_one @ [(''id5'', sample_book ''id5'' ''Fifth'' ''Y'')]) = reindex sample_one"
proof -
  note T = reindex_first_seen_wins [of sample_one]
  from T have "asin (sample_book ''id2'' ''Second'' []) = [] \<longrightarrow>
      sample_book ''id2'' ''Second'' [] \<notin> set (dict_values (reindex sample_one))"
    by blast
  then have c1: "sample_book ''id2'' ''Second'' [] \<notin> set (dict_values (reindex sample_one))"
    by (simp add: sample_book_def)
  from T have "map_of (reindex sample_one) ''X'' =
      (if ''X'' = [] then None else find (\<lambda>ab. asin ab = ''X'') (dict_values sample_one))"
    by blast
  then have c2: "map_of (reindex sample_one) ''X'' = Some (sample_book ''id1'' ''First'' ''X'')"
    by (simp add: sample_defs dict_values_def)
  have c3: "sample_book ''id3'' ''Third'' ''X'' \<notin> set (dict_values (reindex sample_one))"
    by (simp add: reindex_sample_one dict_values_def sample_book_def)
  from T have "reindex (sample_one @ [(''id5'', sample_book ''id5'' ''Fifth'' ''Y'')]) =
      (if asin (sample_book ''id5'' ''Fifth'' ''Y'') \<noteq> []
          \<and> \<not> dict_in (asin (sample_book ''id5'' ''Fifth'' ''Y'')) (reindex sample_one)
       then reindex sample_one @ [(asin (sample_book ''id5'' ''Fifth'' ''Y''), sample_book ''id5'' ''Fifth'' ''Y'')]
       else reindex sample_one)"
    by blast
  then have c4: "reindex (sample_one @ [(''id5'', sample_book ''id5'' ''Fifth'' ''Y'')]) = reindex sample_one"
    by (simp add: reindex_sample_one dict_in_def dict_keys_def sample_book_def)
  from c1 c2 c3 c4 show ?thesis by blast
qed

subsection \<open>C3: the reindexed catalog is no larger, and keyed by asin\<close>

text \<open>
  Claim C3. The reindexed catalog has at most as many entries as the catalog it was
  built from, and each of its entries is stored under the asin of its own record.
\<close>

theorem reindex_size_and_keys:
  "length (reindex lib) \<le> length lib \<and> (\<forall>(k, ab) \<in> set (reindex lib). k = asin ab)"
  using reindex_loop_length [of "dict_values lib" "[]"] reindex_entries [of _ _ lib]
  by (auto simp: reindex_def dict_values_def)


text \<open>C3 on the sample: the entry under \<open>Y\<close> is the record whose asin is \<open>Y\<close>.\<close>

theorem reindex_size_and_keys_witness:
  "length (reindex sample_one) \<le> length sample_one
   \<and> (''Y'', sample_book ''id4'' ''Fourth'' ''Y'') \<in> set (reindex sample_one)
   \<and> ''Y'' = asin (sample_book ''id4'' ''Fourth'' ''Y'')"
proof -
  have mem: "(''Y'', sample_book ''id4'' ''Fourth'' ''Y'') \<in> set (reindex sample_one)"
    by (simp add: reindex_sample_one)
  from reindex_size_and_keys [of sample_one] mem show ?thesis
    by blast
qed

subsection \<open>C8: compare_libs leaves its arguments alone\<close>

text \<open>The loop on the store does to the two new dicts what the loop on values computes.\<close>

lemma compare_loop_st_sim:
  "lib_one < n \<Longrightarrow> lib_two < n \<Longrightarrow> n \<le> bb \<Longrightarrow> n \<le> mb \<Longrightarrow> bb \<noteq> mb \<Longrightarrow>
   bb < length h \<Longrightarrow> mb < length h \<Longrightarrow>
   compare_loop_st ks lib_one lib_two bb mb h =
     (case compare_loop ks (h ! lib_one) (h ! lib_two) (h ! bb) (h ! mb) of
        Inl e \<Rightarrow> Inl e
      | Inr r \<Rightarrow> Inr (h[bb := both r, mb := missing r]))"
proof (induction ks arbitrary: h)
  case Nil
  then show ?case by (simp add: list_update_same_conv)
next
  case (Cons k ks)
  show ?case
  proof (cases "dict_get (h ! lib_one) k")
    case (Inl e)
    then show ?thesis by (simp add: and_then_def)
  next
    case (Inr v)
    show ?thesis
    proof (cases "dict_in k (h ! lib_two)")
      case True
      let ?h = "h[bb := dict_set (h ! bb) k v]"
      have "compare_loop_st ks lib_one lib_two bb mb ?h =
        (case compare_loop ks (?h ! lib_one) (?h ! lib_two) (?h ! bb) (?h ! mb) of
           Inl e \<Rightarrow> Inl e | Inr r \<Rightarrow> Inr (?h[bb := both r, mb := missing r]))"
        using Cons.prems by (intro Cons.IH) simp_all
      then show ?thesis
        using True Inr Cons.prems by (simp add: and_then_def split: sum.splits)
    next
      case False
      let ?h = "h[mb := dict_set (h ! mb) k v]"
      have "compare_loop_st ks lib_one lib_two bb mb ?h =
        (case compare_loop ks (?h ! lib_one) (?h ! lib_two) (?h ! bb) (?h ! mb) of
           Inl e \<Rightarrow> Inl e | Inr r \<Rightarrow> Inr (?h[bb := both r, mb := missing r]))"
        using Cons.prems by (intro Cons.IH) simp_all
      then show ?thesis
        using False Inr Cons.prems
        by (simp add: and_then_def list_update_swap [of mb bb] split: sum.splits)
    qed
  qed
qed

lemma compare_libs_st_sim:
  assumes "lib_one < length h" "lib_two < length h"
  shows "compare_libs_st lib_one lib_two h =
     (case compare_libs (h ! lib_one) (h ! lib_two) of
        Inl e \<Rightarrow> Inl e
      | Inr r \<Rightarrow> Inr ((length h, Suc (length h)), h @ [both r, missing r]))"
proof -
  let ?h2 = "h @ [[], []]"
  have sim: "compare_loop_st ks lib_one lib_two (length h) (Suc (length h)) ?h2 =
     (case compare_loop ks (?h2 ! lib_one) (?h2 ! lib_two) (?h2 ! length h) (?h2 ! Suc (length h)) of
        Inl e \<Rightarrow> Inl e
      | Inr r \<Rightarrow> Inr (?h2[length h := both r, Suc (length h) := missing r]))" for ks
    using assms by (intro compare_loop_st_sim [where n = "length h"]) simp_all
  have upd: "?h2[length h := x, Suc (length h) := y] = h @ [x, y]" for x y
    by (simp add: list_update_append)
  have rd: "?h2 ! lib_one = h ! lib_one" "?h2 ! lib_two = h ! lib_two"
    "?h2 ! length h = []" "?h2 ! Suc (length h) = []"
    using assms by (simp_all add: nth_append)
  show ?thesis
    unfolding compare_libs_st_def alloc_dict_def compare_libs_def
    using sim [of "dict_keys (h ! lib_one)"]
    by (simp add: rd and_then_def split: sum.splits) (simp add: list_update_append)
qed


text \<open>
  Claim C8. On any store, for any two live dicts (one object or two), the call returns
  two new objects and a store in which every object that existed is what it was, both
  arguments included. The contents of the new objects are the result of \<open>compare_libs\<close>
  on the contents of the arguments, so they depend on nothing else, and a second call on
  the store of the first returns the same contents, again changing no object.
\<close>

theorem compare_libs_pure:
  assumes "lib_one < length h" and "lib_two < length h"
  shows "\<exists>bb mb h'. compare_libs_st lib_one lib_two h = Inr ((bb, mb), h')
     \<and> take (length h) h' = h
     \<and> h' ! lib_one = h ! lib_one \<and> h' ! lib_two = h ! lib_two
     \<and> length h \<le> bb \<and> length h \<le> mb \<and> bb \<noteq> mb
     \<and> compare_libs (h ! lib_one) (h ! lib_two) = Inr \<lparr>both = h' ! bb, missing = h' ! mb\<rparr>
     \<and> (\<exists>bb2 mb2 h''. compare_libs_st lib_one lib_two h' = Inr ((bb2, mb2), h'')
           \<and> take (length h') h'' = h'
           \<and> h'' ! bb2 = h' ! bb \<and> h'' ! mb2 = h' ! mb)"
proof -
  obtain r where r: "compare_libs (h ! lib_one) (h ! lib_two) = Inr r"
    using compare_libs_total [of "h ! lib_one" "h ! lib_two"] by blast
  define h' where "h' = h @ [both r, missing r]"
  have run1: "compare_libs_st lib_one lib_two h = Inr ((length h, Suc (length h)), h')"
    using assms r by (simp add: compare_libs_st_sim h'_def)
  have keep: "take (length h) h' = h"
    by (simp add: h'_def)
  have rd: "h' ! lib_one = h ! lib_one" "h' ! lib_two = h ! lib_two"
    using assms by (simp_all add: h'_def nth_append)
  have out: "h' ! length h = both r" "h' ! Suc (length h) = missing r"
    by (simp_all add: h'_def nth_append)
  have res: "compare_libs (h ! lib_one) (h ! lib_two) =
      Inr \<lparr>both = h' ! length h, missing = h' ! Suc (length h)\<rparr>"
    using r by (simp add: out)
  have len: "lib_one < length h'" "lib_two < length h'"
    using assms by (simp_all add: h'_def)
  define h'' where "h'' = h' @ [both r, missing r]"
  have run2: "compare_libs_st lib_one lib_two h' = Inr ((length h', Suc (length h')), h'')"
    using len r by (simp add: compare_libs_st_sim rd h''_def)
  have keep2: "take (length h') h'' = h'"
    by (simp add: h''_def)
  have out2: "h'' ! length h' = h' ! length h" "h'' ! Suc (length h') = h' ! Suc (length h)"
    by (simp_all add: h''_def out nth_append)
  from run2 keep2 out2 have again:
    "\<exists>bb2 mb2 h''. compare_libs_st lib_one lib_two h' = Inr ((bb2, mb2), h'')
           \<and> take (length h') h'' = h'
           \<and> h'' ! bb2 = h' ! length h \<and> h'' ! mb2 = h' ! Suc (length h)"
    by blast
  have fresh: "length h \<le> length h" "length h \<le> Suc (length h)" "length h \<noteq> Suc (length h)"
    by simp_all
  from run1 keep rd fresh res again show ?thesis
    by blast
qed

text \<open>C8 on a store holding the two reindexed samples at addresses 0 and 1.\<close>

theorem compare_libs_pure_witness:
  "(0::nat) < length sample_store \<and> (1::nat) < length sample_store
   \<and> (\<exists>bb mb h'. compare_libs_st 0 1 sample_store = Inr ((bb, mb), h')
        \<and> h' ! 0 = reindex sample_one \<and> h' ! 1 = reindex sample_two
        \<and> h' ! bb = [(''X'', sample_book ''id1'' ''First'' ''X'')]
        \<and> h' ! mb = [(''Y'', sample_book ''id4'' ''Fourth'' ''Y'')])"
proof -
  have l: "(0::nat) < length sample_store" "(1::nat) < length sample_store"
    by (simp_all add: sample_store_def)
  have wf: "wf_dict (reindex sample_one)"
    by (simp add: reindex_sample_one dict_defs)
  have cmp: "compare_libs (sample_store ! 0) (sample_store ! 1) =
      Inr \<lparr>both = [(''X'', sample_book ''id1'' ''First'' ''X'')],
           missing = [(''Y'', sample_book ''id4'' ''Fourth'' ''Y'')]\<rparr>"
    using wf by (simp add: sample_store_def compare_libs_filter)
       (simp add: reindex_sample_one reindex_sample_two dict_defs)
  from compare_libs_pure [OF l] obtain bb mb h' where
    "compare_libs_st 0 1 sample_store = Inr ((bb, mb), h')"
    "h' ! 0 = sample_store ! 0" "h' ! 1 = sample_store ! 1"
    "compare_libs (sample_store ! 0) (sample_store ! 1) = Inr \<lparr>both = h' ! bb, missing = h' ! mb\<rparr>"
    by blast
  with cmp l show ?thesis
    by (auto simp: sample_store_def)
qed

subsection \<open>C10: the two flags of write_output\<close>

lemma paths_differ: "csv_path FILEBASE out_type \<noteq> json_path FILEBASE out_type"
  by (simp add: csv_path_def json_path_def)

text \<open>
  Claim C10. With both flags false \<^verbatim>\<open>write_output\<close> leaves the file system as it is. The
  csv flag alone writes the csv file and nothing else, the json flag alone writes the
  json file and nothing else, both flags write both; the two paths differ, and a flag
  that is false leaves its own path untouched whatever the other flag is.
\<close>

theorem write_output_flags:
  "write_output FILEBASE contents out_type False False fs = fs
   \<and> write_output FILEBASE contents out_type False True fs =
       fs(csv_path FILEBASE out_type \<mapsto> CsvFile (csv_rows contents))
   \<and> write_output FILEBASE contents out_type True False fs =
       fs(json_path FILEBASE out_type \<mapsto> JsonFile (content_json_loop contents []))
   \<and> write_output FILEBASE contents out_type True True fs =
       fs(csv_path FILEBASE out_type \<mapsto> CsvFile (csv_rows contents),
          json_path FILEBASE out_type \<mapsto> JsonFile (content_json_loop contents []))
   \<and> csv_path FILEBASE out_type \<noteq> json_path FILEBASE out_type
   \<and> write_output FILEBASE contents out_type flag_j False fs (csv_path FILEBASE out_type) =
       fs (csv_path FILEBASE out_type)
   \<and> write_output FILEBASE contents out_type False flag_c fs (json_path FILEBASE out_type) =
       fs (json_path FILEBASE out_type)"
  using paths_differ [of FILEBASE out_type]
  by (simp add: write_output_def Let_def)

subsection \<open>C5: the fields written for a record\<close>

text \<open>
  \<^verbatim>\<open>write_output\<close> takes the dataset and a name for the path; nothing in it tells a
  comparison result from a full catalog. Every row after the header is the list of the
  ten values of \<^verbatim>\<open>asdict\<close>, for every dataset.
\<close>

lemma csv_rows_lengths:
  "length (hd (csv_rows contents)) = 6 \<and> (\<forall>row \<in> set (tl (csv_rows contents)). length row = 10)"
  by (auto simp: csv_rows_def csv_header_def asdict_def dict_values_def)

text \<open>
  Claim C5, evaluated on the \<open>both\<close> dataset of the sample, a comparison result. The csv
  file starts with the header row of the six names of the claim's tuple; the row written
  for the record has ten values and starts with the id, so it is neither the six-field
  tuple of the claim nor its nine-field extension, and under the header its values stand
  in the wrong columns: the title column holds the id and the asin column the year. The
  json object of the record has the same ten fields.
\<close>

theorem write_output_sample_record:
  "write_output sample_filebase sample_both ''both'' True True Map.empty
       ''abscomp_books_240204_both.csv'' =
     Some (CsvFile
       [[''Title'', ''Author'', ''Series'', ''Year'', ''asin'', ''isbn''],
        [''id1'', ''First'', ''Ann Author'', ''Saga'', ''2020'', ''X'', ''978'', ''1700000000000'',
         ''12'', ''34567'']])
   \<and> write_output sample_filebase sample_both ''both'' True True Map.empty
       ''abscomp_books_240204_both.json'' =
     Some (JsonFile [(''X'',
         [(''id'', ''id1''), (''title'', ''First''), (''author'', ''Ann Author''),
          (''series'', ''Saga''), (''year'', ''2020''), (''asin'', ''X''), (''isbn'', ''978''),
          (''added'', ''1700000000000''), (''files'', ''12''), (''size'', ''34567'')])])
   \<and> spec_fields_comparison (sample_book ''id1'' ''First'' ''X'') =
       [''First'', ''Ann Author'', ''Saga'', ''2020'', ''X'', ''978'']
   \<and> [''id1'', ''First'', ''Ann Author'', ''Saga'', ''2020'', ''X'', ''978'', ''1700000000000'',
         ''12'', ''34567''] \<noteq> spec_fields_comparison (sample_book ''id1'' ''First'' ''X'')
   \<and> [''id1'', ''First'', ''Ann Author'', ''Saga'', ''2020'', ''X'', ''978'', ''1700000000000'',
         ''12'', ''34567''] \<noteq> spec_fields_full (sample_book ''id1'' ''First'' ''X'')
   \<and> zip csv_header (dict_values (asdict (sample_book ''id1'' ''First'' ''X''))) =
       [(''Title'', ''id1''), (''Author'', ''First''), (''Series'', ''Ann Author''),
        (''Year'', ''Saga''), (''asin'', ''2020''), (''isbn'', ''X'')]"
  by (simp add: write_output_def csv_path_def json_path_def sample_filebase_def sample_both_def
      sample_book_def csv_rows_def csv_header_def asdict_def dict_values_def dict_set_def
      spec_fields_comparison_def spec_fields_full_def)

subsection \<open>C6: the datasets main writes\<close>

lemma compare_sample_first:
  "compare_libs (reindex sample_one) (reindex sample_two) =
     Inr \<lparr>both = [(''X'', sample_book ''id1'' ''First'' ''X'')],
          missing = [(''Y'', sample_book ''id4'' ''Fourth'' ''Y'')]\<rparr>"
proof -
  have "wf_dict (reindex sample_one)"
    by (simp add: reindex_sample_one dict_defs)
  then show ?thesis
    by (simp add: compare_libs_filter) (simp add: reindex_sample_one reindex_sample_two dict_defs)
qed

lemma compare_sample_second:
  "compare_libs (reindex sample_two) (reindex sample_one) =
     Inr \<lparr>both = [(''X'', sample_book ''id7'' ''First again'' ''X'')],
          missing = [(''Z'', sample_book ''id8'' ''Other'' ''Z'')]\<rparr>"
proof -
  have "wf_dict (reindex sample_two)"
    by (simp add: reindex_sample_two dict_defs)
  then show ?thesis
    by (simp add: compare_libs_filter) (simp add: reindex_sample_one reindex_sample_two dict_defs)
qed

text \<open>
  For every pair of fetched catalogs and every flag setting main completes: both
  comparisons return, and the file system it leaves is that of three calls of
  \<^verbatim>\<open>write_output\<close>, for the \<open>both\<close> set of the first comparison and for the two catalogs as
  fetched. The missing sets enter the summary only, by their sizes.
\<close>

theorem main_core_total:
  "\<exists>first_compare second_compare.
     compare_libs (reindex lib_one) (reindex lib_two) = Inr first_compare
     \<and> compare_libs (reindex lib_two) (reindex lib_one) = Inr second_compare
     \<and> main_core FILEBASE lib_one lib_two flag_c_csv flag_j_json fs =
         Inr (write_output FILEBASE lib_two ''two_full'' flag_j_json flag_c_csv
               (write_output FILEBASE lib_one ''one'' flag_j_json flag_c_csv
                 (write_output FILEBASE (both first_compare) ''both'' flag_j_json flag_c_csv fs)),
              \<lparr>lib_one_len = length lib_one,
               one_asin_len = length (reindex lib_one),
               one_missing_len = length (missing second_compare),
               lib_two_len = length lib_two,
               two_asin_len = length (reindex lib_two),
               two_missing_len = length (missing first_compare),
               len_both = length (both first_compare)\<rparr>)"
proof -
  obtain a where a: "compare_libs (reindex lib_one) (reindex lib_two) = Inr a"
    using compare_libs_total [of "reindex lib_one" "reindex lib_two"] by blast
  obtain b where b: "compare_libs (reindex lib_two) (reindex lib_one) = Inr b"
    using compare_libs_total [of "reindex lib_two" "reindex lib_one"] by blast
  show ?thesis
    by (simp add: main_core_def Let_def and_then_def a b)
qed

text \<open>
  Claim C6, evaluated on the sample with the csv flag: main writes three files, the
  \<open>both\<close> set and the two full catalogs. Each direction has one missing asin (\<open>Y\<close> and
  \<open>Z\<close>), counted in the summary and written to no file.
\<close>

theorem main_core_sample_files:
  "\<exists>fs s. main_core sample_filebase sample_one sample_two True False Map.empty = Inr (fs, s)
     \<and> dom fs = {''abscomp_books_240204_both.csv'', ''abscomp_books_240204_one.csv'',
                 ''abscomp_books_240204_two_full.csv''}
     \<and> fs ''abscomp_books_240204_both.csv'' = Some (CsvFile (csv_rows sample_both))
     \<and> fs ''abscomp_books_240204_one.csv'' = Some (CsvFile (csv_rows sample_one))
     \<and> fs ''abscomp_books_240204_two_full.csv'' = Some (CsvFile (csv_rows sample_two))
     \<and> two_missing_len s = 1 \<and> one_missing_len s = 1 \<and> len_both s = 1"
  by (auto simp add: main_core_def Let_def and_then_def compare_sample_first compare_sample_second
      write_output_def csv_path_def sample_filebase_def sample_both_def)

subsection \<open>C7: a raw entry without a required field aborts the fetch\<close>

lemma and_then_Inr:
  "and_then r f = Inr y \<longleftrightarrow> (\<exists>x. r = Inr x \<and> f x = Inr y)"
  by (cases r) (simp_all add: and_then_def)

lemma and_then_Inl:
  "and_then r f = Inl e \<longleftrightarrow> r = Inl e \<or> (\<exists>x. r = Inr x \<and> f x = Inl e)"
  by (cases r) (simp_all add: and_then_def)

lemma py_getitem_error: "py_getitem v k = Inl e \<Longrightarrow> lookup_error e"
  by (auto simp: py_getitem_def lookup_error_def split: json.splits option.splits)

lemma has_path_Cons:
  "has_path v (k # ks) \<longleftrightarrow> (\<exists>x. py_getitem v k = Inr x \<and> has_path x ks)"
proof (cases v)
  case (JObj kvs)
  then show ?thesis
    by (cases "map_of kvs k") (simp_all add: py_getitem_def)
qed (simp_all add: py_getitem_def)

lemma py_getitem_path: "has_path v [k] \<longleftrightarrow> (\<exists>x. py_getitem v k = Inr x)"
  by (simp add: has_path_Cons del: has_path.simps(2))

lemma metadata_field_error: "metadata_field r f = Inl e \<Longrightarrow> lookup_error e"
  by (auto simp: metadata_field_def and_then_Inl dest: py_getitem_error)

lemma media_field_error: "media_field r f = Inl e \<Longrightarrow> lookup_error e"
  by (auto simp: media_field_def and_then_Inl dest: py_getitem_error)

lemma metadata_field_path:
  "has_path r [''media'', ''metadata'', f] \<longleftrightarrow> (\<exists>x. metadata_field r f = Inr x)"
  by (auto simp add: metadata_field_def and_then_Inr has_path_Cons simp del: has_path.simps(2))

lemma mk_Book_error: "mk_Book r = Inl e \<Longrightarrow> lookup_error e"
  unfolding mk_Book_def and_then_Inl
  by (auto dest: py_getitem_error metadata_field_error media_field_error)

lemma mk_Book_Inr:
  "mk_Book r = Inr b \<Longrightarrow>
     py_getitem r ''id'' = Inr (id_book b)
     \<and> metadata_field r ''title'' = Inr (title b)
     \<and> metadata_field r ''authorName'' = Inr (author b)"
  unfolding mk_Book_def and_then_Inr by auto

lemma mk_Book_lacks:
  assumes "lacks_required r"
  shows "\<exists>e. mk_Book r = Inl e"
proof (cases "mk_Book r")
  case (Inl e)
  then show ?thesis by blast
next
  case (Inr b)
  from mk_Book_Inr [OF Inr] have "has_path r [''id'']"
    "has_path r [''media'', ''metadata'', ''title'']"
    "has_path r [''media'', ''metadata'', ''authorName'']"
    unfolding py_getitem_path metadata_field_path by blast+
  with assms show ?thesis
    by (simp add: lacks_required_def required_paths_def)
qed


lemma lookup_error_iff: "lookup_error e \<longleftrightarrow> e = TypeError \<or> (\<exists>k. e = KeyError k)"
  by (cases e) (simp_all add: lookup_error_def)

lemma py_setitem_error: "py_setitem d k v = Inl e \<Longrightarrow> lookup_error e"
  by (auto simp: py_setitem_def lookup_error_def split: if_splits)

lemma get_library_loop_error:
  "get_library_loop rs lib = Inl e \<Longrightarrow> lookup_error e"
proof (induction rs arbitrary: lib)
  case Nil
  then show ?case by simp
next
  case (Cons r rs)
  from Cons.prems show ?case
    by (auto simp: and_then_Inl dest: mk_Book_error py_getitem_error py_setitem_error Cons.IH)
qed

lemma get_library_loop_fails:
  "r \<in> set rs \<Longrightarrow> mk_Book r = Inl e \<Longrightarrow> \<exists>e'. get_library_loop rs lib = Inl e'"
proof (induction rs arbitrary: lib)
  case Nil
  then show ?case by simp
next
  case (Cons x rs)
  show ?case
  proof (cases "get_library_loop (x # rs) lib")
    case (Inl e')
    then show ?thesis by blast
  next
    case (Inr lib')
    then obtain b k lib1 where x: "mk_Book x = Inr b" and "py_getitem x ''id'' = Inr k"
      and "py_setitem lib k b = Inr lib1" and rest: "get_library_loop rs lib1 = Inr lib'"
      by (auto simp: and_then_Inr)
    from Cons.prems x have "r \<in> set rs" by auto
    from Cons.IH [OF this Cons.prems(2), of lib1] rest show ?thesis by simp
  qed
qed

lemma get_library_loop_first:
  "\<forall>x \<in> set pre. record_ok x \<Longrightarrow> mk_Book r = Inl e \<Longrightarrow>
   get_library_loop (pre @ r # post) lib = Inl e"
proof (induction pre arbitrary: lib)
  case Nil
  then show ?case by (simp add: and_then_def)
next
  case (Cons x pre)
  from Cons.prems obtain b where b: "mk_Book x = Inr b" "hashable (id_book b)"
    by (auto simp: record_ok_def split: sum.splits)
  from mk_Book_Inr [OF b(1)] have k: "py_getitem x ''id'' = Inr (id_book b)" by simp
  show ?case
    using b k Cons.prems Cons.IH [of "py_update (id_book b) b lib"]
    by (simp add: and_then_def py_setitem_def)
qed

text \<open>
  Claim C7. When the response decodes to an object whose \<open>results\<close> list holds an entry
  in which the id, the title or the author is not there, \<^verbatim>\<open>get_library\<close> returns no
  catalog: it ends in the exception of a failed subscript, \<^verbatim>\<open>KeyError\<close> or \<^verbatim>\<open>TypeError\<close>,
  which is not the \<^verbatim>\<open>JSONDecodeError\<close> the function catches, so it reaches the caller.
  No entry is skipped: when the entries before it are well formed, the exception is the
  one that building the Book of that entry raises.
\<close>

theorem get_library_malformed_aborts:
  assumes "\<not> status_error resp" and "decoded resp = Some j"
    and "py_getitem j ''results'' = Inr (JArr (pre @ r # post))"
    and "lacks_required r"
  shows "\<exists>e. get_library resp = Inl e
    \<and> (e = TypeError \<or> (\<exists>k. e = KeyError k))
    \<and> ((\<forall>x \<in> set pre. record_ok x) \<longrightarrow> mk_Book r = Inl e)"
proof -
  have run: "get_library resp = get_library_loop (pre @ r # post) []"
    using assms(1-3) by (simp add: get_library_def and_then_def py_iter_def)
  obtain e0 where e0: "mk_Book r = Inl e0"
    using mk_Book_lacks [OF assms(4)] by blast
  then obtain e where e: "get_library_loop (pre @ r # post) [] = Inl e"
    using get_library_loop_fails [of r "pre @ r # post" e0 "[]"] by auto
  have kind: "e = TypeError \<or> (\<exists>k. e = KeyError k)"
    using get_library_loop_error [OF e] by (simp add: lookup_error_iff)
  have first: "(\<forall>x \<in> set pre. record_ok x) \<longrightarrow> mk_Book r = Inl e"
    using get_library_loop_first [of pre r e0 post "[]"] e e0 by auto
  from run e kind first show ?thesis by simp
qed

text \<open>Which key the \<^verbatim>\<open>KeyError\<close> names, for each of the three required fields.\<close>

lemma mk_Book_missing_id:
  "map_of kvs ''id'' = None \<Longrightarrow> mk_Book (JObj kvs) = Inl (KeyError ''id'')"
  by (simp add: mk_Book_def py_getitem_def and_then_def)

lemma mk_Book_missing_title:
  "map_of kvs ''id'' = Some i \<Longrightarrow> map_of kvs ''media'' = Some (JObj m) \<Longrightarrow>
   map_of m ''metadata'' = Some (JObj md) \<Longrightarrow> map_of md ''title'' = None \<Longrightarrow>
   mk_Book (JObj kvs) = Inl (KeyError ''title'')"
  by (simp add: mk_Book_def metadata_field_def py_getitem_def and_then_def)

lemma mk_Book_missing_author:
  "map_of kvs ''id'' = Some i \<Longrightarrow> map_of kvs ''media'' = Some (JObj m) \<Longrightarrow>
   map_of m ''metadata'' = Some (JObj md) \<Longrightarrow> map_of md ''title'' = Some t \<Longrightarrow>
   map_of md ''authorName'' = None \<Longrightarrow>
   mk_Book (JObj kvs) = Inl (KeyError ''authorName'')"
  by (simp add: mk_Book_def metadata_field_def py_getitem_def and_then_def)


lemmas fetch_defs = mk_Book_def metadata_field_def media_field_def py_getitem_def and_then_def
  sample_entry_def sample_metadata_def

text \<open>
  C7 on three entries of which the second has no title: the fetch ends in
  \<open>KeyError ''title''\<close>, the first entry is not returned and the third is not looked at.
\<close>

theorem get_library_malformed_aborts_witness:
  "\<not> status_error (sample_response sample_results)
   \<and> decoded (sample_response sample_results) = Some (JObj [(''results'', JArr sample_results)])
   \<and> lacks_required (sample_entry ''id2'' (tl sample_metadata))
   \<and> get_library (sample_response sample_results) = Inl (KeyError ''title'')"
proof -
  let ?resp = "sample_response sample_results"
  let ?j = "JObj [(''results'', JArr sample_results)]"
  let ?pre = "[sample_entry ''id1'' sample_metadata]"
  let ?r = "sample_entry ''id2'' (tl sample_metadata)"
  let ?post = "[sample_entry ''id3'' sample_metadata]"
  have a1: "\<not> status_error ?resp" and a2: "decoded ?resp = Some ?j"
    by (simp_all add: sample_response_def)
  have a3: "py_getitem ?j ''results'' = Inr (JArr (?pre @ ?r # ?post))"
    by (simp add: py_getitem_def sample_results_def)
  have a4: "lacks_required ?r"
    by (simp add: lacks_required_def required_paths_def sample_entry_def sample_metadata_def)
  have ok: "\<forall>x \<in> set ?pre. record_ok x"
    by (simp add: record_ok_def fetch_defs hashable_def)
  have bad: "mk_Book ?r = Inl (KeyError ''title'')"
    by (simp add: fetch_defs)
  from get_library_malformed_aborts [OF a1 a2 a3 a4] ok bad
  have "get_library ?resp = Inl (KeyError ''title'')"
    by auto
  with a1 a2 a4 show ?thesis by blast
qed

text \<open>Without the malformed entry the same fetch returns the two books.\<close>

lemma get_library_sample_ok:
  "\<exists>b1 b3. get_library (sample_response
       [sample_entry ''id1'' sample_metadata, sample_entry ''id3'' sample_metadata]) =
     Inr [(JStr ''id1'', b1), (JStr ''id3'', b3)] \<and> asin b1 = JStr ''X'' \<and> isbn b3 = JNull"
  by (simp add: get_library_def sample_response_def py_iter_def py_setitem_def hashable_def
      key_norm_def fetch_defs)

subsection \<open>C9: Book is frozen and compared by its fields\<close>

lemma astuple_eq_iff: "astuple x = astuple y \<longleftrightarrow> x = y"
  by (cases x, cases y) (auto simp: astuple_def)

lemma reindex_values: "set (dict_values (reindex lib)) \<subseteq> set (dict_values lib)"
  using reindex_entries [of _ _ lib] by (auto simp: dict_values_def)

text \<open>
  The model tells the arguments of line 40 apart: without \<^verbatim>\<open>frozen\<close> an assignment changes
  the object, without \<^verbatim>\<open>eq\<close> two objects with the same fields are not equal, and with
  \<^verbatim>\<open>eq\<close> alone there is no hash.
\<close>

lemma unfrozen_setattr_mutates:
  "a < length h \<Longrightarrow>
   \<exists>h'. generated_setattr \<lparr>eq_arg = True, frozen_arg = False\<rparr> h a ''title'' v = Inr h'
     \<and> title (h' ! a) = v"
  by (simp add: generated_setattr_def set_field_def)

lemma identity_eq_without_eq:
  "generated_eq \<lparr>eq_arg = False, frozen_arg = True\<rparr> h a b \<longleftrightarrow> a = b"
  by (simp add: generated_eq_def)

lemma no_hash_without_frozen:
  "generated_hash \<lparr>eq_arg = True, frozen_arg = False\<rparr> tuple_hash id_hash h a = Inl TypeError"
  by (simp add: generated_hash_def)

text \<open>
  Claim C9. For every store of Books and every two addresses: an assignment to any name
  of a Book raises \<^verbatim>\<open>FrozenInstanceError\<close> and returns no changed store; two Books are
  equal exactly when all ten fields are equal, whichever objects they are; every Book has
  a hash, it is the hash of the tuple of its fields, and equal Books have equal hashes;
  and the records in the results of the reindexing and of \<^verbatim>\<open>compare_libs\<close> are records of
  their input, as they were.
\<close>

theorem Book_frozen_structural:
  "Book_setattr h a name v = Inl FrozenInstanceError
   \<and> (Book_eq h a b \<longleftrightarrow>
        id_book (h ! a) = id_book (h ! b) \<and> title (h ! a) = title (h ! b)
        \<and> author (h ! a) = author (h ! b) \<and> series (h ! a) = series (h ! b)
        \<and> year (h ! a) = year (h ! b) \<and> asin (h ! a) = asin (h ! b)
        \<and> isbn (h ! a) = isbn (h ! b) \<and> added (h ! a) = added (h ! b)
        \<and> files (h ! a) = files (h ! b) \<and> size_book (h ! a) = size_book (h ! b))
   \<and> (Book_eq h a b \<longleftrightarrow> h ! a = h ! b)
   \<and> Book_hash tuple_hash id_hash h a = Inr (tuple_hash (astuple (h ! a)))
   \<and> (Book_eq h a b \<longrightarrow> Book_hash tuple_hash id_hash h a = Book_hash tuple_hash id_hash h b)
   \<and> set (dict_values (reindex lib)) \<subseteq> set (dict_values lib)
   \<and> (\<exists>r. compare_libs left right = Inr r
         \<and> set (dict_values (both r)) \<subseteq> set (dict_values left)
         \<and> set (dict_values (missing r)) \<subseteq> set (dict_values left))"
proof -
  have frozen: "Book_setattr h a name v = Inl FrozenInstanceError"
    by (simp add: Book_setattr_def generated_setattr_def Book_args_def)
  have eq: "Book_eq h a b \<longleftrightarrow> h ! a = h ! b"
    by (simp add: Book_eq_def generated_eq_def Book_args_def astuple_eq_iff)
  have fields: "Book_eq h a b \<longleftrightarrow>
        id_book (h ! a) = id_book (h ! b) \<and> title (h ! a) = title (h ! b)
        \<and> author (h ! a) = author (h ! b) \<and> series (h ! a) = series (h ! b)
        \<and> year (h ! a) = year (h ! b) \<and> asin (h ! a) = asin (h ! b)
        \<and> isbn (h ! a) = isbn (h ! b) \<and> added (h ! a) = added (h ! b)
        \<and> files (h ! a) = files (h ! b) \<and> size_book (h ! a) = size_book (h ! b)"
    by (simp add: Book_eq_def generated_eq_def Book_args_def astuple_def)
  have hash: "Book_hash tuple_hash id_hash h a = Inr (tuple_hash (astuple (h ! a)))"
    for a
    by (simp add: Book_hash_def generated_hash_def Book_args_def)
  have hash_eq: "Book_eq h a b \<longrightarrow>
      Book_hash tuple_hash id_hash h a = Book_hash tuple_hash id_hash h b"
    by (simp add: hash eq)
  obtain r where r: "compare_libs left right = Inr r"
    "set (both r) \<subseteq> set left" "set (missing r) \<subseteq> set left"
    using compare_libs_total [of left right] by blast
  then have cmp: "\<exists>r. compare_libs left right = Inr r
         \<and> set (dict_values (both r)) \<subseteq> set (dict_values left)
         \<and> set (dict_values (missing r)) \<subseteq> set (dict_values left)"
    by (auto simp: dict_values_def)
  from frozen fields eq hash [of a] hash_eq reindex_values [of lib] cmp show ?thesis
    by blast
qed

text \<open>
  C9 on a store of three Books: the second is built field by field with the fields of the
  first, so the two are equal and hash alike though they are two objects; the third
  differs in id and title and is not equal to the first; an assignment to the title of
  the first raises.
\<close>

theorem Book_frozen_structural_witness:
  "Book_eq sample_books 0 1
   \<and> Book_hash (\<lambda>t. int (length (concat t))) (\<lambda>a. int a) sample_books 0 =
       Book_hash (\<lambda>t. int (length (concat t))) (\<lambda>a. int a) sample_books 1
   \<and> \<not> Book_eq sample_books 0 2
   \<and> Book_setattr sample_books 0 ''title'' ''Changed'' = Inl FrozenInstanceError"
proof -
  let ?th = "\<lambda>t :: string list. int (length (concat t))"
  let ?ih = "\<lambda>a :: nat. int a"
  note T01 = Book_frozen_structural [of sample_books 0 "''title''" "''Changed''" 1 ?th ?ih]
  note T02 = Book_frozen_structural [of sample_books 0 "''title''" "''Changed''" 2 ?th ?ih]
  from T01 have "Book_eq sample_books 0 1 \<longleftrightarrow> sample_books ! 0 = sample_books ! 1"
    by blast
  then have e: "Book_eq sample_books 0 1"
    by (simp add: sample_books_def sample_book_def)
  from T01 e have hs: "Book_hash ?th ?ih sample_books 0 = Book_hash ?th ?ih sample_books 1"
    by blast
  from T02 have "Book_eq sample_books 0 2 \<longleftrightarrow> sample_books ! 0 = sample_books ! 2"
    by blast
  then have n: "\<not> Book_eq sample_books 0 2"
    by (simp add: sample_books_def sample_book_def)
  from T01 have f: "Book_setattr sample_books 0 ''title'' ''Changed'' = Inl FrozenInstanceError"
    by blast
  from e hs n f show ?thesis by blast
qed

subsection \<open>Edge cases of compare_libs\<close>

text \<open>An empty first catalog gives two empty outputs.\<close>

theorem compare_libs_empty_left:
  "compare_libs [] right = Inr \<lparr>both = [], missing = []\<rparr>"
  by (simp add: compare_libs_def dict_keys_def)

text \<open>An empty second catalog puts all of the first into \<open>missing\<close>.\<close>

theorem compare_libs_empty_right:
  "wf_dict left \<Longrightarrow> compare_libs left [] = Inr \<lparr>both = [], missing = left\<rparr>"
  by (simp add: compare_libs_filter dict_in_def dict_keys_def)

text \<open>The reindexed sample against an empty catalog.\<close>

theorem compare_libs_empty_right_witness:
  "wf_dict (reindex sample_one)
   \<and> compare_libs (reindex sample_one) [] =
       Inr \<lparr>both = [],
            missing = [(''X'', sample_book ''id1'' ''First'' ''X''),
                       (''Y'', sample_book ''id4'' ''Fourth'' ''Y'')]\<rparr>"
proof -
  have wf: "wf_dict (reindex sample_one)"
    by (simp add: reindex_sample_one dict_defs)
  from compare_libs_empty_right [OF wf] wf show ?thesis
    by (simp add: reindex_sample_one)
qed

end
